theory Spec2Isabelle
  imports Main
begin

section \<open>Data model of the network monitor\<close>

text \<open>
  The monitor of \<^verbatim>\<open>Ping-Tray-2dev.py\<close> is one class, \<^verbatim>\<open>NetworkMonitor\<close>. Its mutable
  fields become a record that each operation takes and returns. A clock value
  (\<^verbatim>\<open>datetime.now()\<close>) is an integer count of microseconds.
\<close>

type_synonym datetime = int

subsection \<open>Bounded deques\<close>

text \<open>
  \<^verbatim>\<open>collections.deque(maxlen=n)\<close>: the items from left (oldest) to right, and the
  bound. \<^verbatim>\<open>append\<close> puts the item on the right and, when the deque is then longer
  than its bound, discards one item from the left.
\<close>

record 'a deque =
  items :: "'a list"
  maxlen :: nat

definition deque_new :: "nat \<Rightarrow> 'a deque" where
  "deque_new n = \<lparr>items = [], maxlen = n\<rparr>"

definition deque_append :: "'a deque \<Rightarrow> 'a \<Rightarrow> 'a deque" where
  "deque_append d x =
     d\<lparr>items := (if maxlen d < length (items d @ [x]) then tl (items d @ [x])
                  else items d @ [x])\<rparr>"

subsection \<open>History and monitor state\<close>

text \<open>
  A change record is the dictionary built at lines 127-131: the keys in insertion
  order, the value under \<^verbatim>\<open>'time'\<close> a clock value and the value under each device
  key the inner dictionary \<^verbatim>\<open>{'old': ..., 'new': ...}\<close>.
\<close>

datatype change_value = Time datetime | OldNew (old: bool) (new: bool)

type_synonym change_record = "(string \<times> change_value) list"

record history_store =
  timestamps :: "datetime deque"
  device1 :: "int deque"
  device2 :: "int deque"
  status_changes :: "change_record deque"

text \<open>
  The tray icon is an external object; the model keeps what \<^verbatim>\<open>update_status\<close>
  writes to it: the two colours of the image, the tooltip, and the
  \<^verbatim>\<open>(title, message)\<close> pairs passed to \<^verbatim>\<open>notify\<close>, oldest first.
\<close>

record tray_icon =
  icon_image :: "string \<times> string"
  title :: string
  notifications :: "(string \<times> string) list"

record network_monitor =
  ip1 :: string
  ip2 :: string
  ping_timeout :: int
  ping_retries :: int
  check_interval :: int
  running :: bool
  device1_status :: bool
  device2_status :: bool
  icon :: "tray_icon option"
  history :: history_store

text \<open>
  Line 44, \<^verbatim>\<open>int(24 * 3600 / self.check_interval)\<close>: the quotient is a float and
  \<^verbatim>\<open>int\<close> truncates it. For the interval of the source, 5, the quotient is the whole
  number 17280.
\<close>

definition max_history :: "int \<Rightarrow> nat" where
  "max_history interval = nat (24 * 3600 div interval)"

definition NetworkMonitor_init :: network_monitor where
  "NetworkMonitor_init =
     \<lparr>ip1 = ''192.168.0.1'',
      ip2 = ''192.168.0.2'',
      ping_timeout = 1,
      ping_retries = 2,
      check_interval = 5,
      running = True,
      device1_status = False,
      device2_status = False,
      icon = None,
      history =
        \<lparr>timestamps = deque_new (max_history 5),
         device1 = deque_new (max_history 5),
         device2 = deque_new (max_history 5),
         status_changes = deque_new 100\<rparr>\<rparr>"

section \<open>The prober\<close>

text \<open>
  One attempt of \<^verbatim>\<open>ping\<close> starts the platform's ping command and waits for it. The
  attempt either ends with a return code or raises. The exceptions are classified by the
  \<^verbatim>\<open>except\<close> clauses that can catch them: \<^verbatim>\<open>subprocess.TimeoutExpired\<close> is a subclass
  of \<^verbatim>\<open>subprocess.SubprocessError\<close>, which is a subclass of \<^verbatim>\<open>Exception\<close>. Each
  exception carries the text of \<^verbatim>\<open>str(e)\<close>.
\<close>

datatype py_exception = TimeoutExpired string | SubprocessError string | OtherException string

datatype except_clause = Except_TimeoutExpired | Except_SubprocessError | Except_Exception

fun isinstance :: "py_exception \<Rightarrow> except_clause \<Rightarrow> bool" where
  "isinstance (TimeoutExpired s) c = True"
| "isinstance (SubprocessError s) c = (c \<noteq> Except_TimeoutExpired)"
| "isinstance (OtherException s) c = (c = Except_Exception)"

fun str :: "py_exception \<Rightarrow> string" where
  "str (TimeoutExpired s) = s"
| "str (SubprocessError s) = s"
| "str (OtherException s) = s"

datatype attempt_outcome = Exited int | Raised py_exception

text \<open>
  What a call of \<^verbatim>\<open>ping\<close> does besides returning: the processes it starts, the process
  it kills after a timeout, the lines it prints (address, attempt number counted from 1,
  and the exception text where the source prints it) and the waits, in milliseconds.
\<close>

datatype log_line =
    Ping_timeout string nat
  | Ping_error string nat string
  | Unexpected_error string nat string

datatype effect =
    is_Popen: Popen string
  | is_Kill: Kill
  | is_Print: Print log_line
  | is_Sleep: Sleep_ms nat

datatype flow = Return bool | Fallthrough

text \<open>
  The \<^verbatim>\<open>try\<close> statement of lines 80-101 for one attempt. The clauses are tried in the
  order of the source; an exception no clause catches would leave the function
  (\<open>Inl\<close>).
\<close>

definition try_attempt ::
  "string \<Rightarrow> nat \<Rightarrow> attempt_outcome \<Rightarrow> py_exception + flow \<times> effect list" where
  "try_attempt ip attempt outcome =
     (case outcome of
        Exited returncode \<Rightarrow>
          if returncode = 0 then Inr (Return True, [Popen ip])
          else Inr (Fallthrough, [Popen ip])
      | Raised e \<Rightarrow>
          if isinstance e Except_TimeoutExpired then
            Inr (Fallthrough, [Popen ip, Print (Ping_timeout ip (attempt + 1)), Kill])
          else if isinstance e Except_SubprocessError then
            Inr (Fallthrough,
                 [Popen ip, Print (Ping_error ip (attempt + 1) (str e))])
          else if isinstance e Except_Exception then
            Inr (Fallthrough,
                 [Popen ip, Print (Unexpected_error ip (attempt + 1) (str e))])
          else Inl e)"

text \<open>
  The \<^verbatim>\<open>for\<close> loop of \<^verbatim>\<open>ping\<close> over the attempt numbers still to run. The wait of
  line 103 is the last statement of the loop body, after the \<^verbatim>\<open>try\<close> statement.
\<close>

fun ping_loop ::
  "(nat \<Rightarrow> attempt_outcome) \<Rightarrow> string \<Rightarrow> nat list \<Rightarrow> py_exception + bool \<times> effect list" where
  "ping_loop outcome ip [] = Inr (False, [])"
| "ping_loop outcome ip (attempt # rest) =
     (case try_attempt ip attempt (outcome attempt) of
        Inl e \<Rightarrow> Inl e
      | Inr (Return b, tr) \<Rightarrow> Inr (b, tr)
      | Inr (Fallthrough, tr) \<Rightarrow>
          (case ping_loop outcome ip rest of
             Inl e \<Rightarrow> Inl e
           | Inr (b, tr') \<Rightarrow> Inr (b, tr @ Sleep_ms 500 # tr')))"

text \<open>
  \<^verbatim>\<open>ping(ip)\<close>. The network is a parameter: \<open>world ip attempt\<close> is the outcome of
  attempt number \<open>attempt\<close> (from 0) against \<open>ip\<close>. \<^verbatim>\<open>range(n)\<close> is empty for
  \<open>n \<le> 0\<close>.
\<close>

definition ping ::
  "network_monitor \<Rightarrow> (string \<Rightarrow> nat \<Rightarrow> attempt_outcome) \<Rightarrow> string
     \<Rightarrow> py_exception + bool \<times> effect list" where
  "ping m world ip = ping_loop (world ip) ip [0..<nat (ping_retries m)]"

text \<open>The number of attempts and of waits in what a call of \<^verbatim>\<open>ping\<close> did.\<close>

definition attempts_made :: "effect list \<Rightarrow> nat" where
  "attempts_made tr = length (filter is_Popen tr)"

definition backoffs :: "effect list \<Rightarrow> nat" where
  "backoffs tr = length (filter is_Sleep tr)"

section \<open>The monitor loop\<close>

definition create_icon :: "network_monitor \<Rightarrow> string \<times> string" where
  "create_icon m =
     (if device1_status m then ''green'' else ''red'',
      if device2_status m then ''green'' else ''red'')"

definition get_status_text :: "network_monitor \<Rightarrow> string" where
  "get_status_text m =
     ''Device 1 ('' @ ip1 m @ ''): '' @ (if device1_status m then ''Online'' else ''Offline'')
       @ [CHR 0x0A]
       @ ''Device 2 ('' @ ip2 m @ ''): '' @ (if device2_status m then ''Online'' else ''Offline'')"

text \<open>
  What one round of the loop reads from outside: the clock value that
  \<^verbatim>\<open>datetime.now()\<close> returns at line 114, and the network during the round.
\<close>

record tick =
  now :: datetime
  probe :: "string \<Rightarrow> nat \<Rightarrow> attempt_outcome"

definition change_record_of :: "datetime \<Rightarrow> bool \<times> bool \<Rightarrow> bool \<times> bool \<Rightarrow> change_record" where
  "change_record_of current_time old_status new_status =
     [(''time'', Time current_time),
      (''device1'', OldNew (fst old_status) (fst new_status)),
      (''device2'', OldNew (snd old_status) (snd new_status))]"

definition record_changes :: "network_monitor \<Rightarrow> datetime \<Rightarrow> bool \<times> bool \<Rightarrow> network_monitor" where
  "record_changes m current_time old_status =
     (if (device1_status m, device2_status m) \<noteq> old_status then
        m\<lparr>history := (history m)\<lparr>status_changes :=
             deque_append (status_changes (history m))
               (change_record_of current_time old_status (device1_status m, device2_status m))\<rparr>\<rparr>
      else m)"

definition update_icon :: "network_monitor \<Rightarrow> bool \<times> bool \<Rightarrow> network_monitor" where
  "update_icon m old_status =
     (case icon m of
        None \<Rightarrow> m
      | Some ic \<Rightarrow>
          m\<lparr>icon := Some (ic\<lparr>icon_image := create_icon m,
                               title := get_status_text m,
                               notifications :=
                                 (if (device1_status m, device2_status m) \<noteq> old_status
                                  then notifications ic @ [(''Network Status Change'', get_status_text m)]
                                  else notifications ic)\<rparr>)\<rparr>)"

definition append_samples :: "network_monitor \<Rightarrow> datetime \<Rightarrow> network_monitor" where
  "append_samples m current_time =
     m\<lparr>history := (history m)
        \<lparr>timestamps := deque_append (timestamps (history m)) current_time,
         device1 := deque_append (device1 (history m)) (if device1_status m then 1 else 0),
         device2 := deque_append (device2 (history m)) (if device2_status m then 1 else 0)\<rparr>\<rparr>"

text \<open>
  \<^verbatim>\<open>update_status\<close>, lines 107-143. An exception leaving \<^verbatim>\<open>ping\<close> would leave
  \<^verbatim>\<open>update_status\<close> too. What the two calls of \<^verbatim>\<open>ping\<close> do besides returning
  (processes, printed lines, waits) and the two debug lines of 122-123 change no field
  of the monitor and are left out of the new state.
\<close>

definition update_status :: "network_monitor \<Rightarrow> tick \<Rightarrow> py_exception + network_monitor" where
  "update_status m t =
     (case ping m (probe t) (ip1 m) of
        Inl e \<Rightarrow> Inl e
      | Inr (r1, tr1) \<Rightarrow>
          (case ping (m\<lparr>device1_status := r1\<rparr>) (probe t) (ip2 m) of
             Inl e \<Rightarrow> Inl e
           | Inr (r2, tr2) \<Rightarrow>
               Inr (update_icon
                      (record_changes
                         (append_samples (m\<lparr>device1_status := r1, device2_status := r2\<rparr>) (now t))
                         (now t) (device1_status m, device2_status m))
                      (device1_status m, device2_status m))))"

text \<open>
  \<^verbatim>\<open>monitor_thread\<close>: one \<^verbatim>\<open>update_status\<close> per round while \<^verbatim>\<open>running\<close> holds, over
  the rounds the list gives. The wait of \<^verbatim>\<open>check_interval\<close> seconds between rounds
  changes no state.
\<close>

fun monitor_thread :: "network_monitor \<Rightarrow> tick list \<Rightarrow> py_exception + network_monitor" where
  "monitor_thread m [] = Inr m"
| "monitor_thread m (t # ts) =
     (if running m then
        (case update_status m t of Inl e \<Rightarrow> Inl e | Inr m' \<Rightarrow> monitor_thread m' ts)
      else Inr m)"

text \<open>
  \<^verbatim>\<open>run\<close> creates the tray icon from the initial state (lines 326-337) and then starts
  the monitor thread.
\<close>

definition create_tray :: "network_monitor \<Rightarrow> network_monitor" where
  "create_tray m =
     m\<lparr>icon := Some \<lparr>icon_image = create_icon m, title = get_status_text m, notifications = []\<rparr>\<rparr>"

definition run :: "tick list \<Rightarrow> py_exception + network_monitor" where
  "run ts = monitor_thread (create_tray NetworkMonitor_init) ts"

text \<open>The composite status, the tuple compared at lines 126 and 139.\<close>

definition composite :: "network_monitor \<Rightarrow> bool \<times> bool" where
  "composite m = (device1_status m, device2_status m)"

section \<open>The change log view\<close>

text \<open>
  The loop of \<^verbatim>\<open>show_status_window\<close> over the change records (lines 260-274) prints,
  under the time of a record, a line for a device when the \<^verbatim>\<open>'old'\<close> and
  \<^verbatim>\<open>'new'\<close> values under the device's key differ. \<open>device_changed\<close> is that test
  (\<open>None\<close> when the key is missing or holds no such pair, where Python raises), and
  \<open>changed_devices\<close> the keys of the devices that get a line, in the order printed.
\<close>

definition device_changed :: "change_record \<Rightarrow> string \<Rightarrow> bool option" where
  "device_changed change key =
     (case map_of change key of
        Some (OldNew a b) \<Rightarrow> Some (a \<noteq> b)
      | _ \<Rightarrow> None)"

definition changed_devices :: "change_record \<Rightarrow> string list option" where
  "changed_devices change =
     (case device_changed change ''device1'' of
        None \<Rightarrow> None
      | Some c1 \<Rightarrow>
          (case device_changed change ''device2'' of
             None \<Rightarrow> None
           | Some c2 \<Rightarrow>
               Some ((if c1 then [''device1''] else []) @ (if c2 then [''device2''] else []))))"

section \<open>Concrete networks and rounds\<close>

text \<open>
  Networks used to run the definitions: every attempt answers, no attempt answers (the
  command ends with return code 1), the first attempt fails and the next answers, every
  attempt raises, and only the first device answers.
\<close>

definition all_up :: "string \<Rightarrow> nat \<Rightarrow> attempt_outcome" where
  "all_up ip attempt = Exited 0"

definition all_down :: "string \<Rightarrow> nat \<Rightarrow> attempt_outcome" where
  "all_down ip attempt = Exited 1"

definition second_try :: "string \<Rightarrow> nat \<Rightarrow> attempt_outcome" where
  "second_try ip attempt = (if attempt = 0 then Exited 1 else Exited 0)"

definition all_raising :: "string \<Rightarrow> nat \<Rightarrow> attempt_outcome" where
  "all_raising ip attempt =
     (if attempt = 0 then Raised (TimeoutExpired ''timed out'')
      else Raised (OtherException ''No such file or directory''))"

definition only_device1_up :: "string \<Rightarrow> nat \<Rightarrow> attempt_outcome" where
  "only_device1_up ip attempt = (if ip = ''192.168.0.1'' then Exited 0 else Exited 1)"

text \<open>Rounds at fixed clock values over these networks.\<close>

definition tick_up :: tick where
  "tick_up = \<lparr>now = 1000, probe = all_up\<rparr>"

definition tick_down :: tick where
  "tick_down = \<lparr>now = 2000, probe = all_down\<rparr>"

definition tick_device1_up :: tick where
  "tick_device1_up = \<lparr>now = 3000, probe = only_device1_up\<rparr>"

text \<open>Rounds in which both devices answer and fail in turn, \<open>2 * k\<close> rounds in all.\<close>

fun flapping :: "nat \<Rightarrow> tick list" where
  "flapping 0 = []"
| "flapping (Suc k) = flapping k @ [tick_up, tick_down]"

section \<open>Properties of the prober\<close>

lemma try_attempt_not_isl: "\<not> isl (try_attempt ip a out)"
proof (cases out)
  case (Exited rc)
  then show ?thesis by (simp add: try_attempt_def)
next
  case (Raised e)
  then show ?thesis by (cases e) (simp_all add: try_attempt_def)
qed

lemma try_attempt_flow:
  "fst (projr (try_attempt ip a out)) = (if out = Exited 0 then Return True else Fallthrough)"
proof (cases out)
  case (Exited rc)
  then show ?thesis by (simp add: try_attempt_def)
next
  case (Raised e)
  then show ?thesis by (cases e) (simp_all add: try_attempt_def)
qed

lemma try_attempt_effects:
  "attempts_made (snd (projr (try_attempt ip a out))) = 1"
  "backoffs (snd (projr (try_attempt ip a out))) = 0"
  "out = Exited 0 \<Longrightarrow> snd (projr (try_attempt ip a out)) = [Popen ip]"
proof -
  show "attempts_made (snd (projr (try_attempt ip a out))) = 1"
  proof (cases out)
    case (Exited rc)
    then show ?thesis by (simp add: try_attempt_def attempts_made_def)
  next
    case (Raised e)
    then show ?thesis by (cases e) (simp_all add: try_attempt_def attempts_made_def)
  qed
  show "backoffs (snd (projr (try_attempt ip a out))) = 0"
  proof (cases out)
    case (Exited rc)
    then show ?thesis by (simp add: try_attempt_def backoffs_def)
  next
    case (Raised e)
    then show ?thesis by (cases e) (simp_all add: try_attempt_def backoffs_def)
  qed
  show "out = Exited 0 \<Longrightarrow> snd (projr (try_attempt ip a out)) = [Popen ip]"
    by (simp add: try_attempt_def)
qed

lemma ping_loop_not_isl: "\<not> isl (ping_loop out ip xs)"
proof (induction xs)
  case Nil
  show ?case by simp
next
  case (Cons a xs)
  obtain fl tr where t: "try_attempt ip a (out a) = Inr (fl, tr)"
    using try_attempt_not_isl [of ip a "out a"] by (cases "try_attempt ip a (out a)") auto
  obtain b tr' where r: "ping_loop out ip xs = Inr (b, tr')"
    using Cons.IH by (cases "ping_loop out ip xs") auto
  show ?case using t r by (cases fl) simp_all
qed

lemma ping_loop_Cons:
  "ping_loop out ip (a # xs) =
     (if out a = Exited 0 then Inr (True, [Popen ip])
      else Inr (fst (projr (ping_loop out ip xs)),
                snd (projr (try_attempt ip a (out a))) @ Sleep_ms 500 # snd (projr (ping_loop out ip xs))))"
proof -
  obtain fl tr where t: "try_attempt ip a (out a) = Inr (fl, tr)"
    using try_attempt_not_isl [of ip a "out a"] by (cases "try_attempt ip a (out a)") auto
  obtain b tr' where r: "ping_loop out ip xs = Inr (b, tr')"
    using ping_loop_not_isl [of out ip xs] by (cases "ping_loop out ip xs") auto
  have fl: "fl = (if out a = Exited 0 then Return True else Fallthrough)"
    using try_attempt_flow [of ip a "out a"] t by simp
  have tr: "out a = Exited 0 \<Longrightarrow> tr = [Popen ip]"
    using try_attempt_effects(3) [of "out a" ip a] t by simp
  show ?thesis using t r fl tr by simp
qed

lemma ping_loop_result:
  "fst (projr (ping_loop out ip xs)) = (\<exists>i \<in> set xs. out i = Exited 0)"
  by (induction xs) (simp_all add: ping_loop_Cons del: ping_loop.simps(2))

lemma ping_loop_backoffs:
  "backoffs (snd (projr (ping_loop out ip xs))) = length (takeWhile (\<lambda>i. out i \<noteq> Exited 0) xs)"
proof (induction xs)
  case Nil
  show ?case by (simp add: backoffs_def)
next
  case (Cons a xs)
  have app: "\<And>u v. backoffs (u @ Sleep_ms 500 # v) = Suc (backoffs u + backoffs v)"
    by (simp add: backoffs_def)
  show ?case using Cons.IH
    by (simp add: ping_loop_Cons app try_attempt_effects(2) del: ping_loop.simps(2)) (simp add: backoffs_def)
qed

lemma ping_loop_attempts:
  "attempts_made (snd (projr (ping_loop out ip xs))) =
     (if \<exists>i \<in> set xs. out i = Exited 0
      then Suc (length (takeWhile (\<lambda>i. out i \<noteq> Exited 0) xs)) else length xs)"
proof (induction xs)
  case Nil
  show ?case by (simp add: attempts_made_def)
next
  case (Cons a xs)
  have app: "\<And>u v. attempts_made (u @ Sleep_ms 500 # v) = attempts_made u + attempts_made v"
    by (simp add: attempts_made_def)
  show ?case
  proof (cases "out a = Exited 0")
    case True
    then show ?thesis by (simp add: ping_loop_Cons attempts_made_def del: ping_loop.simps(2))
  next
    case False
    then show ?thesis using Cons.IH
      by (simp add: ping_loop_Cons app try_attempt_effects(1) del: ping_loop.simps(2))
  qed
qed

lemma ping_loop_last:
  "\<exists>i \<in> set xs. out i = Exited 0 \<Longrightarrow> last (snd (projr (ping_loop out ip xs))) = Popen ip"
proof (induction xs)
  case Nil
  then show ?case by simp
next
  case (Cons a xs)
  show ?case
  proof (cases "out a = Exited 0")
    case True
    then show ?thesis by (simp add: ping_loop_Cons del: ping_loop.simps(2))
  next
    case False
    then have ex: "\<exists>i \<in> set xs. out i = Exited 0" using Cons.prems by simp
    then have l: "last (snd (projr (ping_loop out ip xs))) = Popen ip" by (rule Cons.IH)
    have "attempts_made (snd (projr (ping_loop out ip xs))) \<noteq> 0"
      using ex by (simp add: ping_loop_attempts)
    then have "snd (projr (ping_loop out ip xs)) \<noteq> []"
      by (auto simp: attempts_made_def)
    then show ?thesis using False l by (simp add: ping_loop_Cons del: ping_loop.simps(2))
  qed
qed


lemma upt_takeWhile_first:
  assumes "\<exists>i<n. \<not> P i"
  defines "k \<equiv> length (takeWhile P [0..<n])"
  shows "k < n" "\<not> P k" "\<forall>i<k. P i"
proof -
  have le: "k \<le> n" unfolding k_def using length_takeWhile_le [of P "[0..<n]"] by simp
  have "takeWhile P [0..<n] \<noteq> [0..<n]"
    using assms(1) by (auto simp: takeWhile_eq_all_conv [of P "[0..<n]"])
  then have "k \<noteq> n" unfolding k_def
    by (metis length_upt diff_zero takeWhile_eq_take take_all order_refl)
  then show kn: "k < n" using le by simp
  have "\<not> P ([0..<n] ! k)" unfolding k_def
    by (rule nth_length_takeWhile) (use kn in \<open>simp add: k_def\<close>)
  then show "\<not> P k" using kn by simp
  show "\<forall>i<k. P i"
  proof (intro allI impI)
    fix i assume ik: "i < k"
    then have "takeWhile P [0..<n] ! i \<in> set (takeWhile P [0..<n])"
      unfolding k_def by (rule nth_mem)
    then have "P (takeWhile P [0..<n] ! i)" by (rule set_takeWhileD [THEN conjunct2])
    moreover have "takeWhile P [0..<n] ! i = [0..<n] ! i"
      using ik unfolding k_def by (rule takeWhile_nth)
    ultimately show "P i" using ik kn by simp
  qed
qed

lemma ping_not_isl: "\<not> isl (ping m world ip)"
  by (simp add: ping_def ping_loop_not_isl)

lemma ping_result:
  "fst (projr (ping m world ip)) = (\<exists>i < nat (ping_retries m). world ip i = Exited 0)"
  by (auto simp: ping_def ping_loop_result)

lemma upt_0_2: "[0..<2] = [0, Suc 0]"
  by (simp add: numeral_2_eq_2)

subsection \<open>Retries\<close>

text \<open>
  Claim C3. For every address and every network, \<^verbatim>\<open>ping\<close> returns a boolean after at
  most \<^verbatim>\<open>ping_retries\<close> attempts. It returns true exactly when one of these attempts
  ends with return code 0, and then the attempts made are those up to the first such
  attempt, which is the last thing the call does. It returns false only after all
  \<^verbatim>\<open>ping_retries\<close> attempts were made (and none ended with return code 0).
\<close>

theorem ping_bounded_retries:
  "\<exists>b tr. ping m world ip = Inr (b, tr)
     \<and> attempts_made tr \<le> nat (ping_retries m)
     \<and> (b \<longleftrightarrow> (\<exists>i < nat (ping_retries m). world ip i = Exited 0))
     \<and> (b \<longrightarrow> world ip (attempts_made tr - 1) = Exited 0
              \<and> (\<forall>i < attempts_made tr - 1. world ip i \<noteq> Exited 0)
              \<and> last tr = Popen ip)
     \<and> (\<not> b \<longrightarrow> attempts_made tr = nat (ping_retries m))"
proof -
  define n where "n = nat (ping_retries m)"
  define P where "P = (\<lambda>i. world ip i \<noteq> Exited 0)"
  define k where "k = length (takeWhile P [0..<n])"
  obtain b tr where r: "ping m world ip = Inr (b, tr)"
    using ping_not_isl [of m world ip] by (cases "ping m world ip") auto
  have loop: "ping_loop (world ip) ip [0..<n] = Inr (b, tr)"
    using r by (simp add: ping_def n_def)
  have b: "b \<longleftrightarrow> (\<exists>i<n. world ip i = Exited 0)"
    using ping_loop_result [of "world ip" ip "[0..<n]"] loop by auto
  have am: "attempts_made tr = (if b then Suc k else n)"
    using ping_loop_attempts [of "world ip" ip "[0..<n]"] loop b by (auto simp: k_def P_def)
  have first: "b \<Longrightarrow> k < n \<and> world ip k = Exited 0 \<and> (\<forall>i<k. world ip i \<noteq> Exited 0)"
  proof -
    assume b
    then have "\<exists>i<n. \<not> P i" using b by (simp add: P_def)
    from upt_takeWhile_first [OF this] show ?thesis by (simp add: k_def P_def)
  qed
  have lst: "b \<Longrightarrow> last tr = Popen ip"
  proof -
    assume b
    then have "\<exists>i \<in> set [0..<n]. world ip i = Exited 0" using b by auto
    from ping_loop_last [OF this, of ip] show ?thesis using loop by simp
  qed
  have "attempts_made tr \<le> n" using am first by (cases b) simp_all
  moreover have "b \<longrightarrow> world ip (attempts_made tr - 1) = Exited 0
              \<and> (\<forall>i < attempts_made tr - 1. world ip i \<noteq> Exited 0) \<and> last tr = Popen ip"
    using am first lst by simp
  moreover have "\<not> b \<longrightarrow> attempts_made tr = n" using am by simp
  ultimately show ?thesis using r b unfolding n_def by blast
qed

theorem ping_bounded_retries_witness:
  "(\<exists>b tr. ping NetworkMonitor_init second_try ''192.168.0.1'' = Inr (b, tr)
      \<and> attempts_made tr \<le> 2 \<and> b
      \<and> second_try ''192.168.0.1'' (attempts_made tr - 1) = Exited 0
      \<and> (\<forall>i < attempts_made tr - 1. second_try ''192.168.0.1'' i \<noteq> Exited 0)
      \<and> last tr = Popen ''192.168.0.1'')
   \<and> (\<exists>b tr. ping NetworkMonitor_init all_down ''192.168.0.1'' = Inr (b, tr)
      \<and> \<not> b \<and> attempts_made tr = 2)"
proof -
  have r: "nat (ping_retries NetworkMonitor_init) = 2"
    by (simp add: NetworkMonitor_init_def)
  have up: "\<exists>i<2. second_try ''192.168.0.1'' i = Exited 0"
    by (intro exI[of _ 1]) (simp add: second_try_def)
  have down: "\<not> (\<exists>i<2. all_down ''192.168.0.1'' i = Exited 0)"
    by (simp add: all_down_def)
  show ?thesis
    using ping_bounded_retries [of NetworkMonitor_init second_try "''192.168.0.1''"]
      ping_bounded_retries [of NetworkMonitor_init all_down "''192.168.0.1''"] up down
    unfolding r by blast
qed

subsection \<open>Failures become a false result\<close>

text \<open>
  Claim C5. For every address and every outcome of the attempts, \<^verbatim>\<open>ping\<close> returns a
  value and raises nothing; when no attempt ends with return code 0, whatever else the
  attempts do, it returns false. An attempt that raises, whichever exception, is caught
  by the \<^verbatim>\<open>try\<close> statement and the loop goes on.
\<close>

theorem ping_never_raises:
  "(\<exists>b tr. ping m world ip = Inr (b, tr)
      \<and> ((\<forall>i < nat (ping_retries m). world ip i \<noteq> Exited 0) \<longrightarrow> \<not> b))
   \<and> (\<exists>tr. try_attempt ip attempt (Raised e) = Inr (Fallthrough, tr))"
proof -
  obtain b tr where r: "ping m world ip = Inr (b, tr)"
    using ping_not_isl [of m world ip] by (cases "ping m world ip") auto
  have "b \<longleftrightarrow> (\<exists>i < nat (ping_retries m). world ip i = Exited 0)"
    using ping_result [of m world ip] r by simp
  then have 1: "\<exists>b tr. ping m world ip = Inr (b, tr)
      \<and> ((\<forall>i < nat (ping_retries m). world ip i \<noteq> Exited 0) \<longrightarrow> \<not> b)"
    using r by blast
  have 2: "\<exists>tr. try_attempt ip attempt (Raised e) = Inr (Fallthrough, tr)"
    by (cases e) (simp_all add: try_attempt_def)
  show ?thesis using 1 2 by (rule conjI)
qed

theorem ping_never_raises_witness:
  "\<not> (\<exists>i < nat (ping_retries NetworkMonitor_init). all_raising ''192.168.0.2'' i = Exited 0)
   \<and> (\<exists>tr. ping NetworkMonitor_init all_raising ''192.168.0.2'' = Inr (False, tr))
   \<and> (\<exists>tr. try_attempt ''192.168.0.2'' 0 (Raised (TimeoutExpired ''timed out''))
              = Inr (Fallthrough, tr))"
proof -
  have h: "\<forall>i < nat (ping_retries NetworkMonitor_init). all_raising ''192.168.0.2'' i \<noteq> Exited 0"
    by (simp add: all_raising_def)
  note t = ping_never_raises [of NetworkMonitor_init all_raising "''192.168.0.2''"
                                 0 "TimeoutExpired ''timed out''"]
  from t obtain b tr where
    r: "ping NetworkMonitor_init all_raising ''192.168.0.2'' = Inr (b, tr)" and
    f: "(\<forall>i < nat (ping_retries NetworkMonitor_init). all_raising ''192.168.0.2'' i \<noteq> Exited 0)
          \<longrightarrow> \<not> b"
    by auto
  have "\<not> b" using f h by (rule mp)
  then have "\<exists>tr. ping NetworkMonitor_init all_raising ''192.168.0.2'' = Inr (False, tr)"
    using r by auto
  then show ?thesis using h t by simp
qed

subsection \<open>Waits between attempts\<close>

text \<open>
  Claim C9. The comment at line 103 says the wait is a delay between retries. The wait
  is the last statement of the loop body, so a call in which both attempts fail waits
  twice: once between the two attempts and once more after the second, final attempt,
  before it returns false.
\<close>

theorem ping_waits_after_final_attempt:
  "ping NetworkMonitor_init all_down ''192.168.0.1'' =
     Inr (False, [Popen ''192.168.0.1'', Sleep_ms 500, Popen ''192.168.0.1'', Sleep_ms 500])
   \<and> backoffs [Popen ''192.168.0.1'', Sleep_ms 500, Popen ''192.168.0.1'', Sleep_ms 500] = 2"
  by (simp add: ping_def NetworkMonitor_init_def all_down_def try_attempt_def upt_0_2
        backoffs_def)

section \<open>Properties of the monitor loop\<close>

subsection \<open>One round\<close>

lemma ping_config:
  "ping_retries m' = ping_retries m \<Longrightarrow> ping m' world ip = ping m world ip"
  by (simp add: ping_def)

lemma update_status_eq:
  "update_status m t =
     Inr (update_icon
            (record_changes
               (append_samples
                  (m\<lparr>device1_status := fst (projr (ping m (probe t) (ip1 m))),
                     device2_status := fst (projr (ping m (probe t) (ip2 m)))\<rparr>) (now t))
               (now t) (composite m))
            (composite m))"
proof -
  obtain r1 tr1 where p1: "ping m (probe t) (ip1 m) = Inr (r1, tr1)"
    using ping_not_isl [of m "probe t" "ip1 m"] by (cases "ping m (probe t) (ip1 m)") auto
  obtain r2 tr2 where p2: "ping m (probe t) (ip2 m) = Inr (r2, tr2)"
    using ping_not_isl [of m "probe t" "ip2 m"] by (cases "ping m (probe t) (ip2 m)") auto
  have p2': "ping (m\<lparr>device1_status := r1\<rparr>) (probe t) (ip2 m) = Inr (r2, tr2)"
    using p2 by (simp add: ping_def)
  show ?thesis by (simp add: update_status_def p1 p2 p2' composite_def)
qed

lemma update_status_not_isl: "\<not> isl (update_status m t)"
  by (simp add: update_status_eq)

lemma update_icon_keeps:
  "history (update_icon m old_status) = history m"
  "device1_status (update_icon m old_status) = device1_status m"
  "device2_status (update_icon m old_status) = device2_status m"
  "running (update_icon m old_status) = running m"
  "ping_retries (update_icon m old_status) = ping_retries m"
  "ip1 (update_icon m old_status) = ip1 m"
  "ip2 (update_icon m old_status) = ip2 m"
  by (cases "icon m"; simp add: update_icon_def)+

lemma record_changes_keeps:
  "device1_status (record_changes m current_time old_status) = device1_status m"
  "device2_status (record_changes m current_time old_status) = device2_status m"
  "running (record_changes m current_time old_status) = running m"
  "ping_retries (record_changes m current_time old_status) = ping_retries m"
  "ip1 (record_changes m current_time old_status) = ip1 m"
  "ip2 (record_changes m current_time old_status) = ip2 m"
  "icon (record_changes m current_time old_status) = icon m"
  "timestamps (history (record_changes m current_time old_status)) = timestamps (history m)"
  "device1 (history (record_changes m current_time old_status)) = device1 (history m)"
  "device2 (history (record_changes m current_time old_status)) = device2 (history m)"
  by (simp_all add: record_changes_def)

lemma append_samples_keeps:
  "device1_status (append_samples m current_time) = device1_status m"
  "device2_status (append_samples m current_time) = device2_status m"
  "running (append_samples m current_time) = running m"
  "ping_retries (append_samples m current_time) = ping_retries m"
  "ip1 (append_samples m current_time) = ip1 m"
  "ip2 (append_samples m current_time) = ip2 m"
  "icon (append_samples m current_time) = icon m"
  "status_changes (history (append_samples m current_time)) = status_changes (history m)"
  by (simp_all add: append_samples_def)

lemmas round_keeps = update_icon_keeps record_changes_keeps append_samples_keeps

lemma update_status_config:
  "running (projr (update_status m t)) = running m"
  "ping_retries (projr (update_status m t)) = ping_retries m"
  "ip1 (projr (update_status m t)) = ip1 m"
  "ip2 (projr (update_status m t)) = ip2 m"
  by (simp_all add: update_status_eq round_keeps)

lemma update_status_composite:
  "composite (projr (update_status m t)) =
     (fst (projr (ping m (probe t) (ip1 m))), fst (projr (ping m (probe t) (ip2 m))))"
  by (simp add: update_status_eq composite_def round_keeps)

lemma update_status_samples:
  "timestamps (history (projr (update_status m t))) =
     deque_append (timestamps (history m)) (now t)"
  "device1 (history (projr (update_status m t))) =
     deque_append (device1 (history m)) (if device1_status (projr (update_status m t)) then 1 else 0)"
  "device2 (history (projr (update_status m t))) =
     deque_append (device2 (history m)) (if device2_status (projr (update_status m t)) then 1 else 0)"
  by (simp_all add: update_status_eq round_keeps) (simp_all add: append_samples_def)

lemma update_status_changes:
  "status_changes (history (projr (update_status m t))) =
     (if composite (projr (update_status m t)) \<noteq> composite m
      then deque_append (status_changes (history m))
             (change_record_of (now t) (composite m) (composite (projr (update_status m t))))
      else status_changes (history m))"
proof -
  let ?a = "append_samples
              (m\<lparr>device1_status := fst (projr (ping m (probe t) (ip1 m))),
                 device2_status := fst (projr (ping m (probe t) (ip2 m)))\<rparr>) (now t)"
  have c: "composite (projr (update_status m t)) = (device1_status ?a, device2_status ?a)"
    by (simp add: update_status_composite append_samples_keeps)
  have h: "status_changes (history (projr (update_status m t))) =
             status_changes (history (record_changes ?a (now t) (composite m)))"
    by (simp add: update_status_eq update_icon_keeps)
  show ?thesis unfolding h c
    by (simp add: record_changes_def append_samples_keeps(8))
qed

lemma update_status_icon:
  "icon (projr (update_status m t)) =
     (case icon m of
        None \<Rightarrow> None
      | Some ic \<Rightarrow>
          Some (ic\<lparr>icon_image := create_icon (projr (update_status m t)),
                    title := get_status_text (projr (update_status m t)),
                    notifications :=
                      (if composite (projr (update_status m t)) \<noteq> composite m
                       then notifications ic @
                              [(''Network Status Change'', get_status_text (projr (update_status m t)))]
                       else notifications ic)\<rparr>))"
proof -
  let ?r = "record_changes
              (append_samples
                 (m\<lparr>device1_status := fst (projr (ping m (probe t) (ip1 m))),
                    device2_status := fst (projr (ping m (probe t) (ip2 m)))\<rparr>) (now t))
              (now t) (composite m)"
  have u: "projr (update_status m t) = update_icon ?r (composite m)"
    by (simp add: update_status_eq)
  have i: "icon ?r = icon m" by (simp add: round_keeps)
  have g: "get_status_text (update_icon ?r (composite m)) = get_status_text ?r"
    by (simp add: get_status_text_def update_icon_keeps)
  have k: "create_icon (update_icon ?r (composite m)) = create_icon ?r"
    by (simp add: create_icon_def update_icon_keeps)
  have c: "composite (update_icon ?r (composite m)) = (device1_status ?r, device2_status ?r)"
    by (simp add: composite_def update_icon_keeps)
  show ?thesis unfolding u g k c
    by (cases "icon m") (simp_all add: update_icon_def i)
qed

subsection \<open>Bounded deques\<close>

lemma deque_append_maxlen: "maxlen (deque_append d x) = maxlen d"
  by (simp add: deque_append_def)

lemma deque_append_length:
  "length (items d) \<le> maxlen d \<Longrightarrow>
     length (items (deque_append d x)) = min (maxlen d) (Suc (length (items d)))"
  by (simp add: deque_append_def)

lemma deque_append_full:
  "length (items d) = maxlen d \<Longrightarrow> 0 < maxlen d \<Longrightarrow>
     items (deque_append d x) = tl (items d) @ [x]"
  by (cases "items d") (simp_all add: deque_append_def)

lemma deque_append_last:
  "0 < maxlen d \<Longrightarrow> length (items d) \<le> maxlen d \<Longrightarrow>
     items (deque_append d x) \<noteq> [] \<and> last (items (deque_append d x)) = x"
  by (cases "items d") (auto simp: deque_append_def)

lemma deque_append_drop:
  assumes "items d = drop (length xs - maxlen d) xs"
  shows "items (deque_append d x) = drop (length (xs @ [x]) - maxlen d) (xs @ [x])"
proof (cases "length xs \<le> maxlen d")
  case True
  then have eq: "items d = xs" using assms by simp
  show ?thesis
  proof (cases "length xs < maxlen d")
    case True
    then show ?thesis using eq by (simp add: deque_append_def)
  next
    case False
    then have m: "maxlen d = length xs" using True by simp
    show ?thesis using eq m by (cases xs) (simp_all add: deque_append_def)
  qed
next
  case False
  then have len: "length (items d) = maxlen d" using assms by simp
  have "items (deque_append d x) = tl (items d @ [x])"
    using len by (simp add: deque_append_def)
  also have "\<dots> = tl (drop (length xs - maxlen d) (xs @ [x]))"
    using assms by simp
  also have "\<dots> = drop (Suc (length xs - maxlen d)) (xs @ [x])"
    by (simp only: tl_drop drop_Suc)
  also have "\<dots> = drop (length (xs @ [x]) - maxlen d) (xs @ [x])"
    using False by (simp add: Suc_diff_le)
  finally show ?thesis .
qed

subsection \<open>The loop\<close>

lemma monitor_thread_Cons:
  "running m \<Longrightarrow> monitor_thread m (t # ts) = monitor_thread (projr (update_status m t)) ts"
  by (simp add: update_status_eq)

lemma monitor_thread_snoc:
  "running m \<Longrightarrow> monitor_thread m (ts @ [t]) = update_status (projr (monitor_thread m ts)) t"
proof (induction ts arbitrary: m)
  case Nil
  then show ?case by (simp add: update_status_eq)
next
  case (Cons a ts)
  have r: "running (projr (update_status m a))"
    using Cons.prems by (simp add: update_status_config)
  show ?case
    using Cons.prems Cons.IH [OF r]
    by (simp add: monitor_thread_Cons del: monitor_thread.simps(2))
qed

lemma monitor_thread_running:
  "running m \<Longrightarrow> running (projr (monitor_thread m ts))"
proof (induction ts rule: rev_induct)
  case Nil
  then show ?case by simp
next
  case (snoc t ts)
  then show ?case by (simp add: monitor_thread_snoc update_status_config)
qed

lemma monitor_thread_not_isl: "running m \<Longrightarrow> \<not> isl (monitor_thread m ts)"
proof (induction ts rule: rev_induct)
  case Nil
  then show ?case by simp
next
  case (snoc t ts)
  then show ?case by (simp add: monitor_thread_snoc update_status_not_isl)
qed

lemma start_running: "running (create_tray NetworkMonitor_init)"
  by (simp add: create_tray_def NetworkMonitor_init_def)

lemma run_Nil: "run [] = Inr (create_tray NetworkMonitor_init)"
  by (simp add: run_def)

lemma run_snoc: "run (ts @ [t]) = update_status (projr (run ts)) t"
  by (simp add: run_def monitor_thread_snoc start_running)

lemma run_not_isl: "\<not> isl (run ts)"
  by (simp add: run_def monitor_thread_not_isl start_running)

lemma run_Inr: "run ts = Inr (projr (run ts))"
  using run_not_isl [of ts] by (cases "run ts") simp_all

lemma update_status_Inr: "update_status m t = Inr (projr (update_status m t))"
  using update_status_not_isl [of m t] by (cases "update_status m t") simp_all

lemma run_config:
  "ping_retries (projr (run ts)) = 2"
  "ip1 (projr (run ts)) = ''192.168.0.1''"
  "ip2 (projr (run ts)) = ''192.168.0.2''"
proof -
  show "ping_retries (projr (run ts)) = 2"
    by (induction ts rule: rev_induct)
      (simp_all add: run_Nil run_snoc update_status_config create_tray_def NetworkMonitor_init_def)
  show "ip1 (projr (run ts)) = ''192.168.0.1''"
    by (induction ts rule: rev_induct)
      (simp_all add: run_Nil run_snoc update_status_config create_tray_def NetworkMonitor_init_def)
  show "ip2 (projr (run ts)) = ''192.168.0.2''"
    by (induction ts rule: rev_induct)
      (simp_all add: run_Nil run_snoc update_status_config create_tray_def NetworkMonitor_init_def)
qed

lemma start_history:
  "history (create_tray NetworkMonitor_init) =
     \<lparr>timestamps = deque_new 17280, device1 = deque_new 17280, device2 = deque_new 17280,
      status_changes = deque_new 100\<rparr>"
  by (simp add: create_tray_def NetworkMonitor_init_def max_history_def)

lemma run_maxlen:
  "maxlen (timestamps (history (projr (run ts)))) = 17280"
  "maxlen (device1 (history (projr (run ts)))) = 17280"
  "maxlen (device2 (history (projr (run ts)))) = 17280"
  "maxlen (status_changes (history (projr (run ts)))) = 100"
proof -
  show "maxlen (timestamps (history (projr (run ts)))) = 17280"
    by (induction ts rule: rev_induct)
      (simp_all add: run_Nil run_snoc start_history deque_new_def update_status_samples
         deque_append_maxlen)
  show "maxlen (device1 (history (projr (run ts)))) = 17280"
    by (induction ts rule: rev_induct)
      (simp_all add: run_Nil run_snoc start_history deque_new_def update_status_samples
         deque_append_maxlen)
  show "maxlen (device2 (history (projr (run ts)))) = 17280"
    by (induction ts rule: rev_induct)
      (simp_all add: run_Nil run_snoc start_history deque_new_def update_status_samples
         deque_append_maxlen)
  show "maxlen (status_changes (history (projr (run ts)))) = 100"
    by (induction ts rule: rev_induct)
      (simp_all add: run_Nil run_snoc start_history deque_new_def update_status_changes
         deque_append_maxlen)
qed

lemma run_lengths:
  "length (items (timestamps (history (projr (run ts))))) = min 17280 (length ts)"
  "length (items (device1 (history (projr (run ts))))) = min 17280 (length ts)"
  "length (items (device2 (history (projr (run ts))))) = min 17280 (length ts)"
proof -
  show "length (items (timestamps (history (projr (run ts))))) = min 17280 (length ts)"
  proof (induction ts rule: rev_induct)
    case Nil
    show ?case by (simp add: run_Nil start_history deque_new_def)
  next
    case (snoc t ts)
    have "length (items (timestamps (history (projr (run ts))))) \<le> maxlen (timestamps (history (projr (run ts))))"
      using snoc by (simp add: run_maxlen)
    from deque_append_length [OF this] show ?case
      using snoc by (simp add: run_snoc update_status_samples run_maxlen)
  qed
  show "length (items (device1 (history (projr (run ts))))) = min 17280 (length ts)"
  proof (induction ts rule: rev_induct)
    case Nil
    show ?case by (simp add: run_Nil start_history deque_new_def)
  next
    case (snoc t ts)
    have "length (items (device1 (history (projr (run ts))))) \<le> maxlen (device1 (history (projr (run ts))))"
      using snoc by (simp add: run_maxlen)
    from deque_append_length [OF this] show ?case
      using snoc by (simp add: run_snoc update_status_samples run_maxlen)
  qed
  show "length (items (device2 (history (projr (run ts))))) = min 17280 (length ts)"
  proof (induction ts rule: rev_induct)
    case Nil
    show ?case by (simp add: run_Nil start_history deque_new_def)
  next
    case (snoc t ts)
    have "length (items (device2 (history (projr (run ts))))) \<le> maxlen (device2 (history (projr (run ts))))"
      using snoc by (simp add: run_maxlen)
    from deque_append_length [OF this] show ?case
      using snoc by (simp add: run_snoc update_status_samples run_maxlen)
  qed
qed

lemma run_changes_length:
  "length (items (status_changes (history (projr (run ts))))) \<le> 100"
proof (induction ts rule: rev_induct)
  case Nil
  show ?case by (simp add: run_Nil start_history deque_new_def)
next
  case (snoc t ts)
  have "length (items (status_changes (history (projr (run ts))))) \<le> maxlen (status_changes (history (projr (run ts))))"
    using snoc by (simp add: run_maxlen)
  from deque_append_length [OF this] show ?case
    using snoc by (simp add: run_snoc update_status_changes run_maxlen)
qed

lemma run_timestamps:
  "items (timestamps (history (projr (run ts)))) = drop (length ts - 17280) (map now ts)"
proof (induction ts rule: rev_induct)
  case Nil
  show ?case by (simp add: run_Nil start_history deque_new_def)
next
  case (snoc t ts)
  have "items (timestamps (history (projr (run ts)))) =
          drop (length (map now ts) - maxlen (timestamps (history (projr (run ts))))) (map now ts)"
    using snoc by (simp add: run_maxlen)
  from deque_append_drop [OF this, of "now t"] show ?case
    by (simp add: run_snoc update_status_samples run_maxlen)
qed

subsection \<open>The concrete networks\<close>

lemma ping_all_up: "0 < ping_retries m \<Longrightarrow> fst (projr (ping m all_up ip))"
  unfolding ping_result by (intro exI[of _ 0]) (simp add: all_up_def)

lemma ping_all_down: "\<not> fst (projr (ping m all_down ip))"
  unfolding ping_result by (simp add: all_down_def)

lemma ping_only_device1_up:
  "0 < ping_retries m \<Longrightarrow> fst (projr (ping m only_device1_up ''192.168.0.1''))"
  "\<not> fst (projr (ping m only_device1_up ''192.168.0.2''))"
proof -
  show "0 < ping_retries m \<Longrightarrow> fst (projr (ping m only_device1_up ''192.168.0.1''))"
    unfolding ping_result by (intro exI[of _ 0]) (simp add: only_device1_up_def)
  show "\<not> fst (projr (ping m only_device1_up ''192.168.0.2''))"
    unfolding ping_result by (simp add: only_device1_up_def)
qed

lemma start_fields:
  "ping_retries (create_tray NetworkMonitor_init) = 2"
  "ip1 (create_tray NetworkMonitor_init) = ''192.168.0.1''"
  "ip2 (create_tray NetworkMonitor_init) = ''192.168.0.2''"
  "composite (create_tray NetworkMonitor_init) = (False, False)"
  "ping_retries NetworkMonitor_init = 2"
  "ip1 NetworkMonitor_init = ''192.168.0.1''"
  "ip2 NetworkMonitor_init = ''192.168.0.2''"
  "composite NetworkMonitor_init = (False, False)"
  "icon NetworkMonitor_init = None"
  "history NetworkMonitor_init = history (create_tray NetworkMonitor_init)"
  by (simp_all add: create_tray_def NetworkMonitor_init_def composite_def)

lemma tick_fields:
  "now tick_up = 1000" "probe tick_up = all_up"
  "now tick_down = 2000" "probe tick_down = all_down"
  "now tick_device1_up = 3000" "probe tick_device1_up = only_device1_up"
  by (simp_all add: tick_up_def tick_down_def tick_device1_up_def)

subsection \<open>Every round appends\<close>

text \<open>
  Claim C7. Whatever the attempts of a round do, \<^verbatim>\<open>update_status\<close> completes and has
  appended one sample to each of the three series: the clock value to
  \<^verbatim>\<open>timestamps\<close>, and 1 or 0, by the new status, to \<^verbatim>\<open>device1\<close> and
  \<^verbatim>\<open>device2\<close>. After any sequence of rounds the three series have the same length (the
  number of rounds, up to the bound of the deques).
\<close>

theorem every_tick_appends:
  "(\<exists>m'. update_status m t = Inr m'
      \<and> timestamps (history m') = deque_append (timestamps (history m)) (now t)
      \<and> device1 (history m') =
          deque_append (device1 (history m)) (if device1_status m' then 1 else 0)
      \<and> device2 (history m') =
          deque_append (device2 (history m)) (if device2_status m' then 1 else 0))
   \<and> (\<exists>s. run ts = Inr s
      \<and> length (items (timestamps (history s))) = min 17280 (length ts)
      \<and> length (items (device1 (history s))) = length (items (timestamps (history s)))
      \<and> length (items (device2 (history s))) = length (items (timestamps (history s))))"
proof (rule conjI)
  show "\<exists>m'. update_status m t = Inr m'
      \<and> timestamps (history m') = deque_append (timestamps (history m)) (now t)
      \<and> device1 (history m') =
          deque_append (device1 (history m)) (if device1_status m' then 1 else 0)
      \<and> device2 (history m') =
          deque_append (device2 (history m)) (if device2_status m' then 1 else 0)"
    using update_status_Inr [of m t] update_status_samples [of m t] by blast
  show "\<exists>s. run ts = Inr s
      \<and> length (items (timestamps (history s))) = min 17280 (length ts)
      \<and> length (items (device1 (history s))) = length (items (timestamps (history s)))
      \<and> length (items (device2 (history s))) = length (items (timestamps (history s)))"
    using run_Inr [of ts] run_lengths [of ts] by (intro exI[of _ "projr (run ts)"]) simp
qed

theorem every_tick_appends_witness:
  "(\<exists>m'. update_status NetworkMonitor_init tick_down = Inr m'
      \<and> items (timestamps (history m')) = [2000]
      \<and> items (device1 (history m')) = [0]
      \<and> items (device2 (history m')) = [0])
   \<and> (\<exists>s. run [tick_up, tick_down, tick_device1_up] = Inr s
      \<and> length (items (timestamps (history s))) = 3
      \<and> length (items (device1 (history s))) = 3
      \<and> length (items (device2 (history s))) = 3)"
proof -
  note t = every_tick_appends [of NetworkMonitor_init tick_down "[tick_up, tick_down, tick_device1_up]"]
  from t obtain m' where m': "update_status NetworkMonitor_init tick_down = Inr m'"
    "timestamps (history m') = deque_append (timestamps (history NetworkMonitor_init)) (now tick_down)"
    "device1 (history m') =
       deque_append (device1 (history NetworkMonitor_init)) (if device1_status m' then 1 else 0)"
    "device2 (history m') =
       deque_append (device2 (history NetworkMonitor_init)) (if device2_status m' then 1 else 0)"
    by blast
  have c: "composite m' = (False, False)"
    using update_status_composite [of NetworkMonitor_init tick_down] m'(1)
    by (simp add: tick_fields ping_all_down)
  then have d: "\<not> device1_status m'" "\<not> device2_status m'" by (simp_all add: composite_def)
  have 1: "items (timestamps (history m')) = [2000]"
    "items (device1 (history m')) = [0]" "items (device2 (history m')) = [0]"
    using m'(2,3,4) d
    by (simp_all add: start_fields start_history deque_new_def deque_append_def tick_fields)
  from t obtain s where s: "run [tick_up, tick_down, tick_device1_up] = Inr s"
      "length (items (timestamps (history s))) = min 17280 (length [tick_up, tick_down, tick_device1_up])"
      "length (items (device1 (history s))) = length (items (timestamps (history s)))"
      "length (items (device2 (history s))) = length (items (timestamps (history s)))"
    by blast
  have 2: "length (items (timestamps (history s))) = 3" using s(2) by simp
  show ?thesis using m'(1) 1 s(1) 2 s(3,4) by simp
qed

subsection \<open>Current status and the tail of the history\<close>

text \<open>
  Claim C10. After every completed round, \<^verbatim>\<open>device1_status\<close> is true exactly when the
  last item of \<^verbatim>\<open>history['device1']\<close> is 1, the same holds for the second device, and
  the last item of \<^verbatim>\<open>history['timestamps']\<close> is the clock value of that round.
\<close>

theorem status_agrees_with_history:
  "\<exists>m'. run (ts @ [t]) = Inr m'
     \<and> items (device1 (history m')) \<noteq> []
     \<and> (device1_status m' \<longleftrightarrow> last (items (device1 (history m'))) = 1)
     \<and> items (device2 (history m')) \<noteq> []
     \<and> (device2_status m' \<longleftrightarrow> last (items (device2 (history m'))) = 1)
     \<and> items (timestamps (history m')) \<noteq> []
     \<and> last (items (timestamps (history m'))) = now t"
proof -
  let ?m = "projr (run ts)"
  let ?m' = "projr (run (ts @ [t]))"
  have m': "?m' = projr (update_status ?m t)" by (simp add: run_snoc)
  have l1: "items (deque_append (timestamps (history ?m)) x) \<noteq> []
           \<and> last (items (deque_append (timestamps (history ?m)) x)) = x" for x
    by (rule deque_append_last) (simp_all add: run_maxlen run_lengths)
  have l2: "items (deque_append (device1 (history ?m)) x) \<noteq> []
           \<and> last (items (deque_append (device1 (history ?m)) x)) = x" for x
    by (rule deque_append_last) (simp_all add: run_maxlen run_lengths)
  have l3: "items (deque_append (device2 (history ?m)) x) \<noteq> []
           \<and> last (items (deque_append (device2 (history ?m)) x)) = x" for x
    by (rule deque_append_last) (simp_all add: run_maxlen run_lengths)
  have "items (device1 (history ?m')) \<noteq> []
     \<and> (device1_status ?m' \<longleftrightarrow> last (items (device1 (history ?m'))) = 1)"
    unfolding m' update_status_samples using l2 by simp
  moreover have "items (device2 (history ?m')) \<noteq> []
     \<and> (device2_status ?m' \<longleftrightarrow> last (items (device2 (history ?m'))) = 1)"
    unfolding m' update_status_samples using l3 by simp
  moreover have "items (timestamps (history ?m')) \<noteq> []
     \<and> last (items (timestamps (history ?m'))) = now t"
    unfolding m' update_status_samples using l1 by simp
  ultimately show ?thesis using run_Inr [of "ts @ [t]"] by blast
qed

theorem status_agrees_with_history_witness:
  "\<exists>m'. run ([tick_up] @ [tick_device1_up]) = Inr m'
     \<and> items (device1 (history m')) \<noteq> []
     \<and> (device1_status m' \<longleftrightarrow> last (items (device1 (history m'))) = 1)
     \<and> items (device2 (history m')) \<noteq> []
     \<and> (device2_status m' \<longleftrightarrow> last (items (device2 (history m'))) = 1)
     \<and> items (timestamps (history m')) \<noteq> []
     \<and> last (items (timestamps (history m'))) = now tick_device1_up"
  by (rule status_agrees_with_history)

subsection \<open>Timestamps\<close>

text \<open>
  Claim C8. When every round observes a later clock value than the round before, the
  timestamps held in the history after any sequence of rounds (the clock values of the
  last 17280 rounds, in order) are strictly increasing.
\<close>

theorem timestamps_increasing:
  "sorted_wrt (<) (map now ts) \<Longrightarrow>
     \<exists>m. run ts = Inr m
       \<and> items (timestamps (history m)) = drop (length ts - 17280) (map now ts)
       \<and> sorted_wrt (<) (items (timestamps (history m)))"
proof -
  assume "sorted_wrt (<) (map now ts)"
  then have "sorted_wrt (<) (drop (length ts - 17280) (map now ts))"
    by (rule sorted_wrt_drop)
  then show ?thesis
    using run_Inr [of ts] run_timestamps [of ts] by (intro exI[of _ "projr (run ts)"]) simp
qed

theorem timestamps_increasing_witness:
  "sorted_wrt (<) (map now [tick_up, tick_down, tick_device1_up])
   \<and> (\<exists>m. run [tick_up, tick_down, tick_device1_up] = Inr m
        \<and> items (timestamps (history m)) = [1000, 2000, 3000]
        \<and> sorted_wrt (<) (items (timestamps (history m))))"
proof -
  have h: "sorted_wrt (<) (map now [tick_up, tick_down, tick_device1_up])"
    by (simp add: tick_fields)
  from timestamps_increasing [OF h] show ?thesis using h by (simp add: tick_fields)
qed

subsection \<open>Bounded buffers\<close>

lemma run_composite_snoc:
  "composite (projr (run (ts @ [t]))) =
     (fst (projr (ping (projr (run ts)) (probe t) ''192.168.0.1'')),
      fst (projr (ping (projr (run ts)) (probe t) ''192.168.0.2'')))"
  by (simp add: run_snoc update_status_composite run_config)

lemma run_flapping:
  "composite (projr (run (flapping k))) = (False, False)
   \<and> length (items (status_changes (history (projr (run (flapping k)))))) = min 100 (2 * k)"
proof (induction k)
  case 0
  show ?case by (simp add: run_Nil start_fields start_history deque_new_def)
next
  case (Suc k)
  let ?m0 = "projr (run (flapping k))"
  let ?m1 = "projr (update_status ?m0 tick_up)"
  let ?m2 = "projr (update_status ?m1 tick_down)"
  have r1: "run (flapping k @ [tick_up]) = update_status ?m0 tick_up"
    by (rule run_snoc)
  have "run ((flapping k @ [tick_up]) @ [tick_down]) =
          update_status (projr (run (flapping k @ [tick_up]))) tick_down"
    by (rule run_snoc)
  then have r2: "run (flapping (Suc k)) = update_status ?m1 tick_down"
    unfolding r1 by simp
  have c1: "composite ?m1 = (True, True)"
    by (simp add: update_status_composite tick_fields ping_all_up run_config)
  have c2: "composite ?m2 = (False, False)"
    by (simp add: update_status_composite tick_fields ping_all_down)
  have m1: "maxlen (status_changes (history ?m1)) = 100"
    using run_maxlen(4) [of "flapping k @ [tick_up]"] unfolding r1 .
  have b0: "length (items (status_changes (history ?m0))) \<le> maxlen (status_changes (history ?m0))"
    using run_changes_length [of "flapping k"] by (simp add: run_maxlen)
  have s1: "status_changes (history ?m1) =
              deque_append (status_changes (history ?m0))
                (change_record_of (now tick_up) (composite ?m0) (composite ?m1))"
    unfolding update_status_changes [of ?m0 tick_up] using c1 Suc.IH by simp
  have l1: "length (items (status_changes (history ?m1))) = min 100 (Suc (min 100 (2 * k)))"
    unfolding s1 using deque_append_length [OF b0] Suc.IH by (simp add: run_maxlen)
  have b1: "length (items (status_changes (history ?m1))) \<le> maxlen (status_changes (history ?m1))"
    unfolding l1 m1 by simp
  have s2: "status_changes (history ?m2) =
              deque_append (status_changes (history ?m1))
                (change_record_of (now tick_down) (composite ?m1) (composite ?m2))"
    unfolding update_status_changes [of ?m1 tick_down] using c1 c2 by simp
  have l2: "length (items (status_changes (history ?m2))) = min 100 (2 * Suc k)"
    unfolding s2 using deque_append_length [OF b1] l1 by (simp add: m1)
  show ?case unfolding r2 using c2 l2 by simp
qed

text \<open>
  Claim C2. After any sequence of rounds the three history series hold at most
  \<^verbatim>\<open>int(24 * 3600 / 5)\<close> = 17280 items each and the change log at most 100. When a
  series is at its bound, the next round drops its oldest item and puts the new one at
  the end, so the length stays; the same holds for the change log when the round records
  a change.
\<close>

theorem history_bounded_fifo:
  "\<exists>m m'. run ts = Inr m \<and> update_status m t = Inr m'
     \<and> max_history 5 = 17280
     \<and> maxlen (timestamps (history m)) = 17280
     \<and> maxlen (device1 (history m)) = 17280
     \<and> maxlen (device2 (history m)) = 17280
     \<and> maxlen (status_changes (history m)) = 100
     \<and> length (items (timestamps (history m))) \<le> 17280
     \<and> length (items (device1 (history m))) \<le> 17280
     \<and> length (items (device2 (history m))) \<le> 17280
     \<and> length (items (status_changes (history m))) \<le> 100
     \<and> (length (items (timestamps (history m))) = 17280 \<longrightarrow>
          items (timestamps (history m')) = tl (items (timestamps (history m))) @ [now t]
          \<and> length (items (timestamps (history m'))) = 17280)
     \<and> (length (items (device1 (history m))) = 17280 \<longrightarrow>
          items (device1 (history m')) =
            tl (items (device1 (history m))) @ [if device1_status m' then 1 else 0]
          \<and> length (items (device1 (history m'))) = 17280)
     \<and> (length (items (device2 (history m))) = 17280 \<longrightarrow>
          items (device2 (history m')) =
            tl (items (device2 (history m))) @ [if device2_status m' then 1 else 0]
          \<and> length (items (device2 (history m'))) = 17280)
     \<and> (length (items (status_changes (history m))) = 100 \<longrightarrow> composite m' \<noteq> composite m \<longrightarrow>
          items (status_changes (history m')) =
            tl (items (status_changes (history m)))
              @ [change_record_of (now t) (composite m) (composite m')]
          \<and> length (items (status_changes (history m'))) = 100)"
proof -
  let ?m = "projr (run ts)"
  let ?m' = "projr (update_status ?m t)"
  have full: "length (items d) = maxlen d \<Longrightarrow> 0 < maxlen d \<Longrightarrow>
      items (deque_append d x) = tl (items d) @ [x]
      \<and> length (items (deque_append d x)) = maxlen d" for d :: "'a deque" and x
    using deque_append_full [of d x] by (cases "items d") simp_all
  have 1: "length (items (timestamps (history ?m))) = 17280 \<longrightarrow>
          items (timestamps (history ?m')) = tl (items (timestamps (history ?m))) @ [now t]
          \<and> length (items (timestamps (history ?m'))) = 17280"
    unfolding update_status_samples
    using full [of "timestamps (history ?m)" "now t"] by (simp add: run_maxlen)
  have 2: "length (items (device1 (history ?m))) = 17280 \<longrightarrow>
          items (device1 (history ?m')) =
            tl (items (device1 (history ?m))) @ [if device1_status ?m' then 1 else 0]
          \<and> length (items (device1 (history ?m'))) = 17280"
    unfolding update_status_samples
    using full [of "device1 (history ?m)" "if device1_status ?m' then 1 else 0"]
    by (simp add: run_maxlen)
  have 3: "length (items (device2 (history ?m))) = 17280 \<longrightarrow>
          items (device2 (history ?m')) =
            tl (items (device2 (history ?m))) @ [if device2_status ?m' then 1 else 0]
          \<and> length (items (device2 (history ?m'))) = 17280"
    unfolding update_status_samples
    using full [of "device2 (history ?m)" "if device2_status ?m' then 1 else 0"]
    by (simp add: run_maxlen)
  have 4: "length (items (status_changes (history ?m))) = 100 \<longrightarrow> composite ?m' \<noteq> composite ?m \<longrightarrow>
          items (status_changes (history ?m')) =
            tl (items (status_changes (history ?m)))
              @ [change_record_of (now t) (composite ?m) (composite ?m')]
          \<and> length (items (status_changes (history ?m'))) = 100"
    unfolding update_status_changes
    using full [of "status_changes (history ?m)"
                   "change_record_of (now t) (composite ?m) (composite ?m')"]
    by (simp add: run_maxlen)
  have 5: "max_history 5 = 17280" by (simp add: max_history_def)
  have 6: "length (items (timestamps (history ?m))) \<le> 17280"
    "length (items (device1 (history ?m))) \<le> 17280"
    "length (items (device2 (history ?m))) \<le> 17280"
    by (simp_all add: run_lengths)
  show ?thesis
    apply (rule exI [of _ ?m])
    apply (rule exI [of _ ?m'])
    apply (intro conjI)
                  apply (rule run_Inr)
                 apply (rule update_status_Inr)
                apply (rule 5)
               apply (rule run_maxlen(1))
              apply (rule run_maxlen(2))
             apply (rule run_maxlen(3))
            apply (rule run_maxlen(4))
           apply (rule 6(1))
          apply (rule 6(2))
         apply (rule 6(3))
        apply (rule run_changes_length)
       apply (rule 1)
      apply (rule 2)
     apply (rule 3)
    apply (rule 4)
    done
qed

theorem history_bounded_fifo_witness:
  "(\<exists>m m'. run (replicate 17280 tick_up) = Inr m \<and> update_status m tick_down = Inr m'
      \<and> length (items (timestamps (history m))) = 17280
      \<and> items (timestamps (history m')) = tl (items (timestamps (history m))) @ [2000]
      \<and> length (items (timestamps (history m'))) = 17280
      \<and> length (items (device1 (history m))) = 17280
      \<and> items (device1 (history m')) = tl (items (device1 (history m))) @ [0]
      \<and> length (items (device2 (history m))) = 17280
      \<and> items (device2 (history m')) = tl (items (device2 (history m))) @ [0])
   \<and> (\<exists>m m'. run (flapping 50) = Inr m \<and> update_status m tick_up = Inr m'
      \<and> length (items (status_changes (history m))) = 100
      \<and> composite m' \<noteq> composite m
      \<and> items (status_changes (history m')) =
           tl (items (status_changes (history m)))
             @ [change_record_of 1000 (False, False) (True, True)]
      \<and> length (items (status_changes (history m'))) = 100)"
proof (rule conjI)
  let ?ts = "replicate 17280 tick_up"
  from history_bounded_fifo [of ?ts tick_down] obtain m m' where
    r: "run ?ts = Inr m" and u: "update_status m tick_down = Inr m'" and
    f1: "length (items (timestamps (history m))) = 17280 \<longrightarrow>
          items (timestamps (history m')) = tl (items (timestamps (history m))) @ [now tick_down]
          \<and> length (items (timestamps (history m'))) = 17280" and
    f2: "length (items (device1 (history m))) = 17280 \<longrightarrow>
          items (device1 (history m')) =
            tl (items (device1 (history m))) @ [if device1_status m' then 1 else 0]
          \<and> length (items (device1 (history m'))) = 17280" and
    f3: "length (items (device2 (history m))) = 17280 \<longrightarrow>
          items (device2 (history m')) =
            tl (items (device2 (history m))) @ [if device2_status m' then 1 else 0]
          \<and> length (items (device2 (history m'))) = 17280"
    by blast
  have m: "m = projr (run ?ts)" using r by simp
  have l: "length (items (timestamps (history m))) = 17280"
    "length (items (device1 (history m))) = 17280"
    "length (items (device2 (history m))) = 17280"
    unfolding m by (simp_all add: run_lengths)
  have "composite m' = (False, False)"
    using update_status_composite [of m tick_down] u by (simp add: tick_fields ping_all_down)
  then have d: "\<not> device1_status m'" "\<not> device2_status m'"
    by (simp_all add: composite_def)
  show "\<exists>m m'. run ?ts = Inr m \<and> update_status m tick_down = Inr m'
      \<and> length (items (timestamps (history m))) = 17280
      \<and> items (timestamps (history m')) = tl (items (timestamps (history m))) @ [2000]
      \<and> length (items (timestamps (history m'))) = 17280
      \<and> length (items (device1 (history m))) = 17280
      \<and> items (device1 (history m')) = tl (items (device1 (history m))) @ [0]
      \<and> length (items (device2 (history m))) = 17280
      \<and> items (device2 (history m')) = tl (items (device2 (history m))) @ [0]"
    using r u l f1 f2 f3 d by (intro exI [of _ m] exI [of _ m']) (simp add: tick_fields)
next
  from history_bounded_fifo [of "flapping 50" tick_up] obtain m m' where
    r: "run (flapping 50) = Inr m" and u: "update_status m tick_up = Inr m'" and
    f4: "length (items (status_changes (history m))) = 100 \<longrightarrow> composite m' \<noteq> composite m \<longrightarrow>
          items (status_changes (history m')) =
            tl (items (status_changes (history m)))
              @ [change_record_of (now tick_up) (composite m) (composite m')]
          \<and> length (items (status_changes (history m'))) = 100"
    by blast
  have m: "m = projr (run (flapping 50))" using r by simp
  have l: "length (items (status_changes (history m))) = 100"
    and c: "composite m = (False, False)"
    unfolding m using run_flapping [of 50] by simp_all
  have c': "composite m' = (True, True)"
    using update_status_composite [of m tick_up] u
    unfolding m by (simp add: tick_fields ping_all_up run_config)
  show "\<exists>m m'. run (flapping 50) = Inr m \<and> update_status m tick_up = Inr m'
      \<and> length (items (status_changes (history m))) = 100
      \<and> composite m' \<noteq> composite m
      \<and> items (status_changes (history m')) =
           tl (items (status_changes (history m)))
             @ [change_record_of 1000 (False, False) (True, True)]
      \<and> length (items (status_changes (history m'))) = 100"
    using r u l c c' f4 by (intro exI [of _ m] exI [of _ m']) (simp add: tick_fields)
qed

subsection \<open>The change log\<close>

text \<open>
  Claim C1, as far as the code goes. A change record is appended in a round exactly when
  the composite status after the round, the results of the two calls of \<^verbatim>\<open>ping\<close>,
  differs from the composite status before it. Before a later round that is the composite
  status of the round before; before the first round it is the initial
  \<^verbatim>\<open>(False, False)\<close>, so the first round appends a record exactly when a device
  answers.
\<close>

theorem change_logged_iff_composite_differs:
  "run [] = Inr (create_tray NetworkMonitor_init)
   \<and> composite (create_tray NetworkMonitor_init) = (False, False)
   \<and> items (status_changes (history (create_tray NetworkMonitor_init))) = []
   \<and> (\<exists>m m' tr1 tr2. run ts = Inr m \<and> run (ts @ [t]) = Inr m'
        \<and> ping m (probe t) (ip1 m) = Inr (fst (composite m'), tr1)
        \<and> ping m (probe t) (ip2 m) = Inr (snd (composite m'), tr2)
        \<and> status_changes (history m') =
            (if composite m' \<noteq> composite m
             then deque_append (status_changes (history m))
                    (change_record_of (now t) (composite m) (composite m'))
             else status_changes (history m)))"
proof -
  let ?m = "projr (run ts)"
  let ?m' = "projr (run (ts @ [t]))"
  have m': "?m' = projr (update_status ?m t)" by (simp add: run_snoc)
  obtain r1 tr1 where p1: "ping ?m (probe t) (ip1 ?m) = Inr (r1, tr1)"
    using ping_not_isl [of ?m "probe t" "ip1 ?m"] by (cases "ping ?m (probe t) (ip1 ?m)") auto
  obtain r2 tr2 where p2: "ping ?m (probe t) (ip2 ?m) = Inr (r2, tr2)"
    using ping_not_isl [of ?m "probe t" "ip2 ?m"] by (cases "ping ?m (probe t) (ip2 ?m)") auto
  have c: "composite ?m' = (r1, r2)"
    unfolding m' update_status_composite by (simp add: p1 p2)
  have s: "status_changes (history ?m') =
            (if composite ?m' \<noteq> composite ?m
             then deque_append (status_changes (history ?m))
                    (change_record_of (now t) (composite ?m) (composite ?m'))
             else status_changes (history ?m))"
    unfolding m' by (rule update_status_changes)
  have "\<exists>m m' tr1 tr2. run ts = Inr m \<and> run (ts @ [t]) = Inr m'
        \<and> ping m (probe t) (ip1 m) = Inr (fst (composite m'), tr1)
        \<and> ping m (probe t) (ip2 m) = Inr (snd (composite m'), tr2)
        \<and> status_changes (history m') =
            (if composite m' \<noteq> composite m
             then deque_append (status_changes (history m))
                    (change_record_of (now t) (composite m) (composite m'))
             else status_changes (history m))"
    apply (rule exI [of _ ?m])
    apply (rule exI [of _ ?m'])
    apply (rule exI [of _ tr1])
    apply (rule exI [of _ tr2])
    apply (intro conjI)
        apply (rule run_Inr)
       apply (rule run_Inr)
      apply (simp add: c p1)
     apply (simp add: c p2)
    apply (rule s)
    done
  then show ?thesis
    by (simp add: run_Nil start_fields start_history deque_new_def)
qed

theorem change_logged_iff_composite_differs_witness:
  "\<exists>m m'. run [] = Inr m \<and> run [tick_up] = Inr m'
      \<and> composite m = (False, False) \<and> composite m' = (True, True)
      \<and> status_changes (history m') =
           deque_append (status_changes (history m))
             (change_record_of 1000 (False, False) (True, True))"
proof -
  from change_logged_iff_composite_differs [of "[]" tick_up] obtain m m' tr1 tr2 where
    r: "run [] = Inr m" and r': "run ([] @ [tick_up]) = Inr m'" and
    p1: "ping m (probe tick_up) (ip1 m) = Inr (fst (composite m'), tr1)" and
    p2: "ping m (probe tick_up) (ip2 m) = Inr (snd (composite m'), tr2)" and
    s: "status_changes (history m') =
            (if composite m' \<noteq> composite m
             then deque_append (status_changes (history m))
                    (change_record_of (now tick_up) (composite m) (composite m'))
             else status_changes (history m))"
    by blast
  have m: "m = create_tray NetworkMonitor_init" using r by (simp add: run_Nil)
  have c: "composite m = (False, False)" unfolding m by (simp add: start_fields)
  have "fst (composite m') = fst (projr (ping m all_up (ip1 m)))"
    "snd (composite m') = fst (projr (ping m all_up (ip2 m)))"
    using p1 p2 by (simp_all add: tick_fields)
  then have "fst (composite m')" "snd (composite m')"
    unfolding m by (simp_all add: ping_all_up start_fields)
  then have c': "composite m' = (True, True)" by (cases "composite m'") simp
  show ?thesis
    using r r' c c' s by (intro exI [of _ m] exI [of _ m']) (simp add: tick_fields)
qed

text \<open>
  The first round of the program with both devices answering: the change log, empty at
  the start, holds one record after it, from \<^verbatim>\<open>False\<close> to \<^verbatim>\<open>True\<close> for both
  devices. So a record is created at the first round.
\<close>

theorem first_tick_logs_change:
  "\<not> isl (run [tick_up])
   \<and> items (status_changes (history (projr (run [tick_up])))) =
       [[(''time'', Time 1000), (''device1'', OldNew False True),
         (''device2'', OldNew False True)]]"
proof -
  have r: "run [tick_up] = update_status (create_tray NetworkMonitor_init) tick_up"
    using run_snoc [of "[]" tick_up] by (simp add: run_Nil)
  have c: "composite (projr (update_status (create_tray NetworkMonitor_init) tick_up)) = (True, True)"
    by (simp add: update_status_composite start_fields tick_fields ping_all_up)
  show ?thesis
    unfolding r update_status_changes c
    by (simp add: update_status_not_isl start_fields start_history deque_new_def
          deque_append_def change_record_of_def tick_fields)
qed

subsection \<open>What a change record holds\<close>

text \<open>
  Claim C4, as far as the code goes. When the composite status changed in a round, the
  record appended holds the clock value and the \<^verbatim>\<open>(old, new)\<close> pair of both devices,
  whether a device changed or not. The devices whose flag differed are those whose pair
  has different values, and the change log view prints a line for exactly those.
\<close>

theorem change_record_holds_both_devices:
  "\<exists>m'. update_status m t = Inr m'
     \<and> (composite m' \<noteq> composite m \<longrightarrow>
          status_changes (history m') =
            deque_append (status_changes (history m))
              (change_record_of (now t) (composite m) (composite m'))
          \<and> change_record_of (now t) (composite m) (composite m') =
              [(''time'', Time (now t)),
               (''device1'', OldNew (device1_status m) (device1_status m')),
               (''device2'', OldNew (device2_status m) (device2_status m'))]
          \<and> changed_devices (change_record_of (now t) (composite m) (composite m')) =
              Some ((if device1_status m' \<noteq> device1_status m then [''device1''] else [])
                    @ (if device2_status m' \<noteq> device2_status m then [''device2''] else [])))"
proof -
  let ?m' = "projr (update_status m t)"
  have 1: "composite ?m' \<noteq> composite m \<longrightarrow>
          status_changes (history ?m') =
            deque_append (status_changes (history m))
              (change_record_of (now t) (composite m) (composite ?m'))"
    by (simp add: update_status_changes)
  have 2: "change_record_of (now t) (composite m) (composite ?m') =
              [(''time'', Time (now t)),
               (''device1'', OldNew (device1_status m) (device1_status ?m')),
               (''device2'', OldNew (device2_status m) (device2_status ?m'))]"
    by (simp add: change_record_of_def composite_def)
  have 3: "changed_devices (change_record_of (now t) (composite m) (composite ?m')) =
              Some ((if device1_status ?m' \<noteq> device1_status m then [''device1''] else [])
                    @ (if device2_status ?m' \<noteq> device2_status m then [''device2''] else []))"
    unfolding 2 by (auto simp: changed_devices_def device_changed_def)
  show ?thesis
    using update_status_Inr [of m t] 1 2 3 by (intro exI [of _ ?m']) simp
qed

theorem change_record_holds_both_devices_witness:
  "\<exists>m'. update_status NetworkMonitor_init tick_device1_up = Inr m'
     \<and> composite m' \<noteq> composite NetworkMonitor_init
     \<and> status_changes (history m') =
          deque_append (status_changes (history NetworkMonitor_init))
            (change_record_of 3000 (False, False) (True, False))
     \<and> change_record_of 3000 (False, False) (True, False) =
          [(''time'', Time 3000), (''device1'', OldNew False True),
           (''device2'', OldNew False False)]
     \<and> changed_devices (change_record_of 3000 (False, False) (True, False)) = Some [''device1'']"
proof -
  from change_record_holds_both_devices [of NetworkMonitor_init tick_device1_up]
  obtain m' where u: "update_status NetworkMonitor_init tick_device1_up = Inr m'" and
    f: "composite m' \<noteq> composite NetworkMonitor_init \<longrightarrow>
          status_changes (history m') =
            deque_append (status_changes (history NetworkMonitor_init))
              (change_record_of (now tick_device1_up) (composite NetworkMonitor_init) (composite m'))
          \<and> change_record_of (now tick_device1_up) (composite NetworkMonitor_init) (composite m') =
              [(''time'', Time (now tick_device1_up)),
               (''device1'', OldNew (device1_status NetworkMonitor_init) (device1_status m')),
               (''device2'', OldNew (device2_status NetworkMonitor_init) (device2_status m'))]
          \<and> changed_devices (change_record_of (now tick_device1_up) (composite NetworkMonitor_init) (composite m')) =
              Some ((if device1_status m' \<noteq> device1_status NetworkMonitor_init then [''device1''] else [])
                    @ (if device2_status m' \<noteq> device2_status NetworkMonitor_init then [''device2''] else []))"
    by blast
  have c': "composite m' = (True, False)"
    using update_status_composite [of NetworkMonitor_init tick_device1_up] u
    by (simp add: tick_fields start_fields ping_only_device1_up)
  then have d: "device1_status m'" "\<not> device2_status m'" by (simp_all add: composite_def)
  have d0: "\<not> device1_status NetworkMonitor_init" "\<not> device2_status NetworkMonitor_init"
    by (simp_all add: NetworkMonitor_init_def)
  have ne: "composite m' \<noteq> composite NetworkMonitor_init"
    by (simp add: c' start_fields)
  show ?thesis
    using u ne f [rule_format, OF ne] c' d d0
    by (intro exI [of _ m'])
      (simp add: tick_fields start_fields changed_devices_def device_changed_def
         change_record_of_def)
qed

text \<open>
  A round from a fresh monitor in which only the first device answers. The record
  appended has an entry for the second device, whose flag did not change
  (\<^verbatim>\<open>False\<close> before and after).
\<close>

theorem unchanged_device_in_change_record:
  "\<not> isl (update_status NetworkMonitor_init tick_device1_up)
   \<and> device2_status (projr (update_status NetworkMonitor_init tick_device1_up))
       = device2_status NetworkMonitor_init
   \<and> items (status_changes (history (projr (update_status NetworkMonitor_init tick_device1_up)))) =
       [[(''time'', Time 3000), (''device1'', OldNew False True),
         (''device2'', OldNew False False)]]"
proof -
  have c: "composite (projr (update_status NetworkMonitor_init tick_device1_up)) = (True, False)"
    by (simp add: update_status_composite start_fields tick_fields ping_only_device1_up)
  then have d: "\<not> device2_status (projr (update_status NetworkMonitor_init tick_device1_up))"
    by (simp add: composite_def)
  have d0: "\<not> device2_status NetworkMonitor_init" by (simp add: NetworkMonitor_init_def)
  have "items (status_changes (history (projr (update_status NetworkMonitor_init tick_device1_up)))) =
       [[(''time'', Time 3000), (''device1'', OldNew False True),
         (''device2'', OldNew False False)]]"
    unfolding update_status_changes c
    by (simp add: start_fields start_history deque_new_def deque_append_def
          change_record_of_def tick_fields)
  then show ?thesis using d d0 by (simp add: update_status_not_isl)
qed

subsection \<open>Notifications\<close>

lemma run_icon: "icon (projr (run ts)) \<noteq> None"
proof (induction ts rule: rev_induct)
  case Nil
  show ?case by (simp add: run_Nil create_tray_def)
next
  case (snoc t ts)
  then show ?case by (auto simp: run_snoc update_status_icon)
qed

lemma start_icon:
  "icon (create_tray NetworkMonitor_init) =
     Some \<lparr>icon_image = create_icon NetworkMonitor_init,
           title = get_status_text NetworkMonitor_init, notifications = []\<rparr>"
  by (simp add: create_tray_def)

lemma status_text_all_up:
  "ip1 m = ''192.168.0.1'' \<Longrightarrow> ip2 m = ''192.168.0.2'' \<Longrightarrow> composite m = (True, True) \<Longrightarrow>
     get_status_text m =
       ''Device 1 (192.168.0.1): Online'' @ [CHR 0x0A] @ ''Device 2 (192.168.0.2): Online''"
  by (simp add: get_status_text_def composite_def)

lemma first_round_all_up:
  "composite (projr (update_status (create_tray NetworkMonitor_init) tick_up)) = (True, True)"
  "get_status_text (projr (update_status (create_tray NetworkMonitor_init) tick_up)) =
     ''Device 1 (192.168.0.1): Online'' @ [CHR 0x0A] @ ''Device 2 (192.168.0.2): Online''"
proof -
  show c: "composite (projr (update_status (create_tray NetworkMonitor_init) tick_up)) = (True, True)"
    by (simp add: update_status_composite start_fields(1-3) tick_fields ping_all_up)
  show "get_status_text (projr (update_status (create_tray NetworkMonitor_init) tick_up)) =
     ''Device 1 (192.168.0.1): Online'' @ [CHR 0x0A] @ ''Device 2 (192.168.0.2): Online''"
    by (rule status_text_all_up) (simp_all add: update_status_config start_fields(1-3) c)
qed

text \<open>
  Claim C6, as far as the code goes. \<^verbatim>\<open>update_status\<close> touches the tray icon only when
  there is one (line 134). With an icon, a round passes one notification, titled
  \<^verbatim>\<open>Network Status Change\<close> and carrying the status text of the new composite status,
  exactly when the composite status after the round differs from the one before it (the
  initial \<^verbatim>\<open>(False, False)\<close> before the first round); without an icon it passes none.
  In the program started by \<^verbatim>\<open>run\<close> the icon is there at every round.
\<close>

theorem notification_iff_icon_and_change:
  "(\<exists>m'. update_status m t = Inr m'
      \<and> (icon m = None \<longrightarrow> icon m' = None)
      \<and> (\<forall>ic. icon m = Some ic \<longrightarrow>
            (\<exists>ic'. icon m' = Some ic'
               \<and> notifications ic' =
                   notifications ic @
                     (if composite m' \<noteq> composite m
                      then [(''Network Status Change'', get_status_text m')] else []))))
   \<and> (\<exists>s. run ts = Inr s \<and> icon s \<noteq> None)"
proof (rule conjI)
  let ?m' = "projr (update_status m t)"
  have 1: "icon m = None \<longrightarrow> icon ?m' = None"
    by (simp add: update_status_icon)
  have 2: "\<forall>ic. icon m = Some ic \<longrightarrow>
            (\<exists>ic'. icon ?m' = Some ic'
               \<and> notifications ic' =
                   notifications ic @
                     (if composite ?m' \<noteq> composite m
                      then [(''Network Status Change'', get_status_text ?m')] else []))"
    by (simp add: update_status_icon)
  show "\<exists>m'. update_status m t = Inr m'
      \<and> (icon m = None \<longrightarrow> icon m' = None)
      \<and> (\<forall>ic. icon m = Some ic \<longrightarrow>
            (\<exists>ic'. icon m' = Some ic'
               \<and> notifications ic' =
                   notifications ic @
                     (if composite m' \<noteq> composite m
                      then [(''Network Status Change'', get_status_text m')] else [])))"
    using update_status_Inr [of m t] 1 2 by (intro exI [of _ ?m']) (intro conjI)
  show "\<exists>s. run ts = Inr s \<and> icon s \<noteq> None"
    using run_Inr [of ts] run_icon [of ts] by (intro exI [of _ "projr (run ts)"]) simp
qed

theorem notification_iff_icon_and_change_witness:
  "(\<exists>m' ic'. update_status (create_tray NetworkMonitor_init) tick_up = Inr m'
      \<and> composite m' \<noteq> composite (create_tray NetworkMonitor_init)
      \<and> icon m' = Some ic'
      \<and> notifications ic' =
          [(''Network Status Change'',
            ''Device 1 (192.168.0.1): Online'' @ [CHR 0x0A] @ ''Device 2 (192.168.0.2): Online'')])
   \<and> (\<exists>m'. update_status NetworkMonitor_init tick_up = Inr m' \<and> icon m' = None)"
proof (rule conjI)
  let ?m = "create_tray NetworkMonitor_init"
  let ?ic = "\<lparr>icon_image = create_icon NetworkMonitor_init,
              title = get_status_text NetworkMonitor_init, notifications = []\<rparr>"
  note t = notification_iff_icon_and_change [of ?m tick_up "[]", THEN conjunct1]
  then obtain m' where m'_all: "update_status ?m tick_up = Inr m'
      \<and> (icon ?m = None \<longrightarrow> icon m' = None)
      \<and> (\<forall>ic. icon ?m = Some ic \<longrightarrow>
            (\<exists>ic'. icon m' = Some ic'
               \<and> notifications ic' =
                   notifications ic @
                     (if composite m' \<noteq> composite ?m
                      then [(''Network Status Change'', get_status_text m')] else [])))" ..
  have u: "update_status ?m tick_up = Inr m'" using m'_all by (rule conjunct1)
  have f: "\<forall>ic. icon ?m = Some ic \<longrightarrow>
            (\<exists>ic'. icon m' = Some ic'
               \<and> notifications ic' =
                   notifications ic @
                     (if composite m' \<noteq> composite ?m
                      then [(''Network Status Change'', get_status_text m')] else []))"
    using m'_all by (rule conjunct2 [THEN conjunct2])
  have "\<exists>ic'. icon m' = Some ic'
               \<and> notifications ic' =
                   notifications ?ic @
                     (if composite m' \<noteq> composite ?m
                      then [(''Network Status Change'', get_status_text m')] else [])"
    by (rule f [rule_format, OF start_icon])
  then obtain ic' where ic'_all: "icon m' = Some ic'
               \<and> notifications ic' =
                   notifications ?ic @
                     (if composite m' \<noteq> composite ?m
                      then [(''Network Status Change'', get_status_text m')] else [])" ..
  have m': "m' = projr (update_status ?m tick_up)" using u by simp
  have c': "composite m' = (True, True)" unfolding m' by (rule first_round_all_up(1))
  have st: "get_status_text m' =
       ''Device 1 (192.168.0.1): Online'' @ [CHR 0x0A] @ ''Device 2 (192.168.0.2): Online''"
    unfolding m' by (rule first_round_all_up(2))
  have c0: "composite ?m = (False, False)" by (rule start_fields(4))
  have ne: "composite m' \<noteq> composite ?m" unfolding c' c0 by simp
  have i1: "icon m' = Some ic'" using ic'_all by (rule conjunct1)
  have n1: "notifications ic' =
          [(''Network Status Change'',
            ''Device 1 (192.168.0.1): Online'' @ [CHR 0x0A] @ ''Device 2 (192.168.0.2): Online'')]"
    using ic'_all [THEN conjunct2] ne unfolding st by simp
  show "\<exists>m' ic'. update_status ?m tick_up = Inr m'
      \<and> composite m' \<noteq> composite ?m
      \<and> icon m' = Some ic'
      \<and> notifications ic' =
          [(''Network Status Change'',
            ''Device 1 (192.168.0.1): Online'' @ [CHR 0x0A] @ ''Device 2 (192.168.0.2): Online'')]"
    apply (rule exI [of _ m'])
    apply (rule exI [of _ ic'])
    apply (intro conjI)
       apply (rule u)
      apply (rule ne)
     apply (rule i1)
    apply (rule n1)
    done
next
  note t = notification_iff_icon_and_change [of NetworkMonitor_init tick_up "[]", THEN conjunct1]
  then obtain m' where m'_all: "update_status NetworkMonitor_init tick_up = Inr m'
      \<and> (icon NetworkMonitor_init = None \<longrightarrow> icon m' = None)
      \<and> (\<forall>ic. icon NetworkMonitor_init = Some ic \<longrightarrow>
            (\<exists>ic'. icon m' = Some ic'
               \<and> notifications ic' =
                   notifications ic @
                     (if composite m' \<noteq> composite NetworkMonitor_init
                      then [(''Network Status Change'', get_status_text m')] else [])))" ..
  have u: "update_status NetworkMonitor_init tick_up = Inr m'" using m'_all by (rule conjunct1)
  have f: "icon NetworkMonitor_init = None \<longrightarrow> icon m' = None"
    using m'_all by (rule conjunct2 [THEN conjunct1])
  have "icon m' = None" using f start_fields(9) by (rule mp)
  then show "\<exists>m'. update_status NetworkMonitor_init tick_up = Inr m' \<and> icon m' = None"
    using u by (intro exI [of _ m']) simp
qed

text \<open>
  Two rounds with both devices answering, each the first round of its monitor. On a
  monitor as \<^verbatim>\<open>__init__\<close> leaves it, with no tray icon, the composite status changes
  and no notification is passed: there is no icon after the round either. In the program
  started by \<^verbatim>\<open>run\<close>, the first round, which no round precedes, passes a notification.
\<close>

theorem change_without_notification:
  "\<not> isl (update_status NetworkMonitor_init tick_up)
   \<and> composite (projr (update_status NetworkMonitor_init tick_up)) \<noteq> composite NetworkMonitor_init
   \<and> icon (projr (update_status NetworkMonitor_init tick_up)) = None
   \<and> \<not> isl (run [tick_up])
   \<and> map_option notifications (icon (projr (run [tick_up]))) =
       Some [(''Network Status Change'',
              ''Device 1 (192.168.0.1): Online'' @ [CHR 0x0A] @ ''Device 2 (192.168.0.2): Online'')]"
proof -
  let ?m = "create_tray NetworkMonitor_init"
  have c: "composite (projr (update_status NetworkMonitor_init tick_up)) = (True, True)"
    by (simp add: update_status_composite start_fields(5-7) tick_fields ping_all_up)
  have 1: "composite (projr (update_status NetworkMonitor_init tick_up)) \<noteq> composite NetworkMonitor_init"
    unfolding c start_fields(8) by simp
  have 2: "icon (projr (update_status NetworkMonitor_init tick_up)) = None"
    by (simp add: update_status_icon start_fields(9))
  have r: "run [tick_up] = update_status ?m tick_up"
    using run_snoc [of "[]" tick_up] by (simp add: run_Nil)
  have ne: "composite (projr (update_status ?m tick_up)) \<noteq> composite ?m"
    unfolding first_round_all_up(1) start_fields(4) by simp
  have 3: "map_option notifications (icon (projr (update_status ?m tick_up))) =
       Some [(''Network Status Change'',
              ''Device 1 (192.168.0.1): Online'' @ [CHR 0x0A] @ ''Device 2 (192.168.0.2): Online'')]"
    using ne unfolding update_status_icon start_icon first_round_all_up(2) by simp
  show ?thesis
    unfolding r
    apply (intro conjI)
        apply (rule update_status_not_isl)
       apply (rule 1)
      apply (rule 2)
     apply (rule update_status_not_isl)
    apply (rule 3)
    done
qed

end
